theory Spec2Isabelle
  imports Complex_Main
begin

section \<open>Numbers and errors of the source\<close>

text \<open>
  The program is \<^verbatim>\<open>ascii-earth.py\<close>. Its coordinates are Python floats; they are
  modelled as real numbers, so every statement below is about exact arithmetic.
  Grid sizes, columns, rows and ramp indices are Python integers (\<open>int\<close>).
\<close>

datatype py_error = ZeroDivisionError | IndexError | ValueError

definition py_fmod :: "real \<Rightarrow> real \<Rightarrow> real" where
  \<comment> \<open>Python's \<^verbatim>\<open>a % b\<close> on floats: the result has the sign of the divisor.
      The source only divides by the constant 360.\<close>
  "py_fmod a b = a - of_int \<lfloor>a / b\<rfloor> * b"

definition py_int :: "real \<Rightarrow> int" where
  \<comment> \<open>Python's \<^verbatim>\<open>int(x)\<close> on a float: truncation towards zero.\<close>
  "py_int x = (if 0 \<le> x then \<lfloor>x\<rfloor> else \<lceil>x\<rceil>)"

section \<open>The coordinate mapper\<close>

definition lon_shifted :: "real \<Rightarrow> real \<Rightarrow> real" where
  \<comment> \<open>Lines 21 to 23: the value of \<^verbatim>\<open>lon_shifted\<close> after the sign correction.\<close>
  "lon_shifted lon longitude_shift =
     (let l = py_fmod (lon + longitude_shift) 360
      in if l > 180 then l - 360 else l)"

definition lat_lon_to_screen ::
  "real \<Rightarrow> real \<Rightarrow> int \<Rightarrow> int \<Rightarrow> real \<Rightarrow> py_error + (int \<times> int)" where
  \<comment> \<open>Lines 19 to 27. \<^verbatim>\<open>% width\<close> raises on a zero width; the pair is (x, y).\<close>
  "lat_lon_to_screen lat lon width height longitude_shift =
     (let ls = lon_shifted lon longitude_shift
      in if width = 0 then Inl ZeroDivisionError
         else
           let x = py_int (((ls + 180) / 360) * of_int width) mod width;
               y = py_int (((90 - lat) / 180) * of_int height)
           in Inr (x, max 0 (min y (height - 1))))"

section \<open>The land rasterizer\<close>

text \<open>
  A grid is a numpy array of one-character strings: a list of rows. Arrays live in a
  store, addressed by their index in \<open>heap\<close>, because \<^verbatim>\<open>LAND_CACHE\<close> and the
  callers hold references to arrays that are mutated in place. The Natural Earth land
  geometries come from a library outside the program: each one is taken as its
  containment test on a point (lon, lat), and the list of them is a parameter.
\<close>

type_synonym grid = "char list list"

type_synonym shape = "real \<Rightarrow> real \<Rightarrow> bool"

record state =
  heap :: "grid list"
  LAND_CACHE :: "(int \<times> int) \<rightharpoonup> nat"

definition init_state :: state where
  \<comment> \<open>Line 17: the cache starts empty; no array exists yet.\<close>
  "init_state = \<lparr>heap = [], LAND_CACHE = Map.empty\<rparr>"

definition np_full :: "int \<Rightarrow> int \<Rightarrow> char \<Rightarrow> grid" where
  \<comment> \<open>\<^verbatim>\<open>np.full((height, width), c)\<close> for non-negative sizes.\<close>
  "np_full height width c = replicate (nat height) (replicate (nat width) c)"

definition np_linspace :: "real \<Rightarrow> real \<Rightarrow> int \<Rightarrow> real list" where
  \<comment> \<open>\<^verbatim>\<open>np.linspace(start, stop, num)\<close>: \<open>num\<close> evenly spaced samples, both ends included.\<close>
  "np_linspace start stop num =
     (if num = 1 then [start]
      else map (\<lambda>i. start + real i * ((stop - start) / of_int (num - 1))) [0..<nat num])"

definition np_set :: "grid \<Rightarrow> int \<Rightarrow> int \<Rightarrow> char \<Rightarrow> py_error + grid" where
  \<comment> \<open>\<^verbatim>\<open>a[y, x] = c\<close>: a negative index counts from the end, an index out of range raises.\<close>
  "np_set g y x c =
     (let nrows = int (length g);
          y' = (if y < 0 then y + nrows else y)
      in if 0 \<le> y' \<and> y' < nrows then
           (let ncols = int (length (g ! nat y'));
                x' = (if x < 0 then x + ncols else x)
            in if 0 \<le> x' \<and> x' < ncols
               then Inr (g[nat y' := (g ! nat y')[nat x' := c]])
               else Inl IndexError)
         else Inl IndexError)"

definition in_land :: "shape list \<Rightarrow> real \<Rightarrow> real \<Rightarrow> bool" where
  \<comment> \<open>Line 51: \<^verbatim>\<open>any(land.contains(point) for land in land_shapes)\<close> at the point (lon, lat).\<close>
  "in_land land_shapes lon lat = list_ex (\<lambda>land. land lon lat) land_shapes"

fun lon_loop ::
  "shape list \<Rightarrow> real \<Rightarrow> int \<Rightarrow> int \<Rightarrow> real \<Rightarrow> real list \<Rightarrow> grid \<Rightarrow> py_error + grid" where
  \<comment> \<open>Lines 47 to 53: the inner loop over \<^verbatim>\<open>lon_steps\<close> at one latitude.\<close>
  "lon_loop land_shapes longitude_shift width height lat [] land_cache = Inr land_cache"
| "lon_loop land_shapes longitude_shift width height lat (lon # lons) land_cache =
     (if in_land land_shapes lon lat then
        (case lat_lon_to_screen lat lon width height longitude_shift of
           Inl e \<Rightarrow> Inl e
         | Inr (x, y) \<Rightarrow>
             (case np_set land_cache y x (CHR ''#'') of
                Inl e \<Rightarrow> Inl e
              | Inr g \<Rightarrow> lon_loop land_shapes longitude_shift width height lat lons g))
      else lon_loop land_shapes longitude_shift width height lat lons land_cache)"

fun lat_loop ::
  "shape list \<Rightarrow> real \<Rightarrow> int \<Rightarrow> int \<Rightarrow> real list \<Rightarrow> real list \<Rightarrow> grid \<Rightarrow> py_error + grid" where
  \<comment> \<open>Lines 46 to 53: the outer loop over \<^verbatim>\<open>lat_steps\<close>.\<close>
  "lat_loop land_shapes longitude_shift width height [] lon_steps land_cache = Inr land_cache"
| "lat_loop land_shapes longitude_shift width height (lat # lats) lon_steps land_cache =
     (case lon_loop land_shapes longitude_shift width height lat lon_steps land_cache of
        Inl e \<Rightarrow> Inl e
      | Inr g \<Rightarrow> lat_loop land_shapes longitude_shift width height lats lon_steps g)"

definition sample_lats :: "int \<Rightarrow> real list" where
  \<comment> \<open>Line 43.\<close>
  "sample_lats height = np_linspace (- 90) 90 (height * 2)"

definition sample_lons :: "int \<Rightarrow> real list" where
  \<comment> \<open>Line 44.\<close>
  "sample_lons width = np_linspace (- 180) 180 (width * 2)"

definition populate :: "shape list \<Rightarrow> real \<Rightarrow> int \<Rightarrow> int \<Rightarrow> py_error + grid" where
  \<comment> \<open>Lines 36 to 53, the cache-miss branch up to the store into the cache.
      \<^verbatim>\<open>np.full\<close> refuses a negative size.\<close>
  "populate land_shapes longitude_shift width height =
     (if height < 0 \<or> width < 0 then Inl ValueError
      else lat_loop land_shapes longitude_shift width height
             (sample_lats height) (sample_lons width)
             (np_full height width (CHR '' '')))"

definition alloc :: "grid \<Rightarrow> state \<Rightarrow> nat \<times> state" where
  \<comment> \<open>A new array in the store; its address is the next free index.\<close>
  "alloc g s = (length (heap s), s\<lparr>heap := heap s @ [g]\<rparr>)"

definition np_copy :: "nat \<Rightarrow> state \<Rightarrow> nat \<times> state" where
  \<comment> \<open>\<^verbatim>\<open>np.copy(a)\<close>: a new array with the contents of the array at \<open>a\<close>.\<close>
  "np_copy a s = alloc (heap s ! a) s"

definition generate_globe ::
  "shape list \<Rightarrow> real \<Rightarrow> int \<Rightarrow> int \<Rightarrow> state \<Rightarrow> py_error + (nat \<times> state)" where
  \<comment> \<open>Lines 29 to 57. The result is the address of the returned array and the new state.
      On a miss nothing but the local variable refers to the new array while it is filled,
      so it enters the store when it is complete, just before the cache takes its address.\<close>
  "generate_globe land_shapes longitude_shift width height s =
     (case LAND_CACHE s (width, height) of
        Some land_cache \<Rightarrow> Inr (np_copy land_cache s)
      | None \<Rightarrow>
          (case populate land_shapes longitude_shift width height of
             Inl e \<Rightarrow> Inl e
           | Inr g \<Rightarrow>
               (let (land_cache, s1) = alloc g s;
                    s2 = s1\<lparr>LAND_CACHE := (LAND_CACHE s1)((width, height) \<mapsto> land_cache)\<rparr>
                in Inr (np_copy land_cache s2))))"

section \<open>The shading engine\<close>

definition ASCII_SHADES :: string where
  \<comment> \<open>Line 10.\<close>
  "ASCII_SHADES = '' .:-=+*#%@''"

definition sun_longitude :: "int \<Rightarrow> int" where
  \<comment> \<open>Line 62; \<open>hour\<close> is \<^verbatim>\<open>datetime.now(timezone.utc).hour\<close>, read from the clock.\<close>
  "sun_longitude hour = (hour * 15) mod 360"

definition column_lon :: "real \<Rightarrow> int \<Rightarrow> int \<Rightarrow> real" where
  \<comment> \<open>Line 66: the longitude displayed at column \<open>x\<close>.\<close>
  "column_lon longitude_shift width x =
     py_fmod ((of_int x / of_int width) * 360 - 180 + longitude_shift) 360"

definition brightness :: "real \<Rightarrow> int \<Rightarrow> int \<Rightarrow> int \<Rightarrow> real" where
  \<comment> \<open>Line 67.\<close>
  "brightness longitude_shift width hour x =
     \<bar>column_lon longitude_shift width x - of_int (sun_longitude hour)\<bar> / 180"

definition shade_index :: "real \<Rightarrow> int \<Rightarrow> int \<Rightarrow> int \<Rightarrow> int" where
  \<comment> \<open>Line 68.\<close>
  "shade_index longitude_shift width hour x =
     min (py_int (brightness longitude_shift width hour x * of_int (int (length ASCII_SHADES) - 1)))
         (int (length ASCII_SHADES) - 1)"

definition shade_glyph :: "real \<Rightarrow> int \<Rightarrow> int \<Rightarrow> int \<Rightarrow> char \<Rightarrow> char" where
  \<comment> \<open>Line 69, the right-hand side. The index is never out of range
      (lemma \<open>shade_index_in_range\<close>), so the read of the ramp cannot raise.\<close>
  "shade_glyph longitude_shift width hour x c =
     (if c \<noteq> CHR '' '' then ASCII_SHADES ! nat (shade_index longitude_shift width hour x)
      else CHR '' '')"

fun shade_cols :: "real \<Rightarrow> int \<Rightarrow> int \<Rightarrow> nat list \<Rightarrow> char list \<Rightarrow> py_error + char list" where
  \<comment> \<open>Lines 65 to 69 on one row: \<^verbatim>\<open>globe[y, x]\<close> raises past the last column.\<close>
  "shade_cols longitude_shift width hour [] row = Inr row"
| "shade_cols longitude_shift width hour (x # xs) row =
     (if x < length row
      then shade_cols longitude_shift width hour xs
             (row[x := shade_glyph longitude_shift width hour (int x) (row ! x)])
      else Inl IndexError)"

fun shade_rows :: "real \<Rightarrow> int \<Rightarrow> int \<Rightarrow> grid \<Rightarrow> py_error + grid" where
  \<comment> \<open>Lines 64 to 69: every row in turn, each over \<^verbatim>\<open>range(width)\<close>.\<close>
  "shade_rows longitude_shift width hour [] = Inr []"
| "shade_rows longitude_shift width hour (row # rows) =
     (case shade_cols longitude_shift width hour [0..<nat width] row of
        Inl e \<Rightarrow> Inl e
      | Inr row' \<Rightarrow>
          (case shade_rows longitude_shift width hour rows of
             Inl e \<Rightarrow> Inl e
           | Inr rows' \<Rightarrow> Inr (row' # rows')))"

definition apply_day_night_shading ::
  "nat \<Rightarrow> real \<Rightarrow> int \<Rightarrow> int \<Rightarrow> state \<Rightarrow> py_error + (nat \<times> state)" where
  \<comment> \<open>Lines 59 to 71: the array at address \<open>globe\<close> is shaded in place and the same
      reference is returned.\<close>
  "apply_day_night_shading globe longitude_shift width hour s =
     (case shade_rows longitude_shift width hour (heap s ! globe) of
        Inl e \<Rightarrow> Inl e
      | Inr g \<Rightarrow> Inr (globe, s\<lparr>heap := (heap s)[globe := g]\<rparr>))"

section \<open>The frame differencer\<close>

fun changed_rows :: "string list \<Rightarrow> nat \<Rightarrow> string list \<Rightarrow> py_error + nat list" where
  \<comment> \<open>Lines 93 to 96: the rows that are moved to and rewritten; \<^verbatim>\<open>prev_globe_strings[i]\<close>
      raises when the previous frame is shorter.\<close>
  "changed_rows prev i [] = Inr []"
| "changed_rows prev i (row # rows) =
     (if i < length prev then
        (case changed_rows prev (Suc i) rows of
           Inl e \<Rightarrow> Inl e
         | Inr is \<Rightarrow> Inr (if prev ! i \<noteq> row then i # is else is))
      else Inl IndexError)"

definition redraw_rows :: "string list option \<Rightarrow> string list \<Rightarrow> py_error + nat list" where
  \<comment> \<open>Lines 92 to 99: the indices of the rows written to the screen. \<^verbatim>\<open>None\<close> and the
      empty list are both false in the test of line 92; that branch writes every row, in order.\<close>
  "redraw_rows prev_globe_strings globe_strings =
     (case prev_globe_strings of
        None \<Rightarrow> Inr [0..<length globe_strings]
      | Some prev \<Rightarrow>
          (if prev \<noteq> [] then changed_rows prev 0 globe_strings
           else Inr [0..<length globe_strings]))"

section \<open>One frame of the render loop\<close>

definition render_frame ::
  "shape list \<Rightarrow> real \<Rightarrow> int \<Rightarrow> int \<Rightarrow> int \<Rightarrow> state \<Rightarrow> py_error + (nat \<times> state)" where
  \<comment> \<open>Lines 86 and 87: the rasterizer's result is shaded in place.\<close>
  "render_frame land_shapes longitude_shift width height hour s =
     (case generate_globe land_shapes longitude_shift width height s of
        Inl e \<Rightarrow> Inl e
      | Inr (globe, s1) \<Rightarrow> apply_day_night_shading globe longitude_shift width hour s1)"

inductive reachable :: "shape list \<Rightarrow> state \<Rightarrow> bool" for land_shapes :: "shape list" where
  start: "reachable land_shapes init_state"
| frame: "reachable land_shapes s \<Longrightarrow>
          render_frame land_shapes longitude_shift width height hour s = Inr (globe, s') \<Longrightarrow>
          reachable land_shapes s'"

section \<open>Notions used in the statements\<close>

definition land_cell :: "shape list \<Rightarrow> real \<Rightarrow> int \<Rightarrow> int \<Rightarrow> nat \<Rightarrow> nat \<Rightarrow> bool" where
  \<comment> \<open>Some sample point of the lattice is inside the land and is mapped to row \<open>y\<close>,
      column \<open>x\<close> under the rotation offset \<open>longitude_shift\<close>.\<close>
  "land_cell land_shapes longitude_shift width height y x =
     list_ex (\<lambda>lat. list_ex (\<lambda>lon. in_land land_shapes lon lat \<and>
                lat_lon_to_screen lat lon width height longitude_shift = Inr (int x, int y))
              (sample_lons width)) (sample_lats height)"

definition land_or_ocean :: "grid \<Rightarrow> bool" where
  \<comment> \<open>Every cell is the blank or the land marker.\<close>
  "land_or_ocean g = list_all (list_all (\<lambda>c. c = CHR '' '' \<or> c = CHR ''#'')) g"

definition cache_wf :: "state \<Rightarrow> bool" where
  \<comment> \<open>Every reference held by the cache is the address of an array of the store.\<close>
  "cache_wf s = (\<forall>k a. LAND_CACHE s k = Some a \<longrightarrow> a < length (heap s))"

definition cache_inv :: "state \<Rightarrow> bool" where
  \<comment> \<open>Moreover every cached array holds blanks and land markers only.\<close>
  "cache_inv s = (\<forall>k a. LAND_CACHE s k = Some a \<longrightarrow>
                    a < length (heap s) \<and> land_or_ocean (heap s ! a))"

definition cached_grid :: "int \<times> int \<Rightarrow> py_error + (nat \<times> state) \<Rightarrow> grid option" where
  \<comment> \<open>The grid that the cache holds for a key after a call, if the call returned.\<close>
  "cached_grid k res =
     (case res of
        Inl e \<Rightarrow> None
      | Inr (a, s) \<Rightarrow> (case LAND_CACHE s k of None \<Rightarrow> None | Some c \<Rightarrow> Some (heap s ! c)))"



section \<open>Properties of the coordinate mapper\<close>

lemma py_fmod_360_bounds: "0 \<le> py_fmod a 360 \<and> py_fmod a 360 < 360"
proof -
  have "of_int \<lfloor>a / 360\<rfloor> \<le> a / 360" and "a / 360 < of_int \<lfloor>a / 360\<rfloor> + 1"
    by linarith+
  then show ?thesis
    unfolding py_fmod_def by (simp add: field_simps)
qed

lemma lon_shifted_bounds:
  "- 180 < lon_shifted lon r \<and> lon_shifted lon r \<le> 180"
  using py_fmod_360_bounds [of "lon + r"]
  unfolding lon_shifted_def Let_def by auto

text \<open>
  Claim C9. For every real longitude and every real rotation offset, the shifted
  longitude computed by the coordinate mapper (after the modulo and the sign correction)
  lies in the half-open range from -180 (excluded) to 180 (included).
\<close>

theorem C9_lon_shifted_canonical_range:
  "lon_shifted lon longitude_shift \<in> {- 180 <.. 180}"
  using lon_shifted_bounds [of lon longitude_shift] by simp

text \<open>
  Claim C1. For every latitude between -90 and 90, every real longitude, every real
  rotation offset and every positive width and height, \<open>lat_lon_to_screen\<close> returns
  a pair (col, row) with \<open>0 \<le> col < width\<close> and \<open>0 \<le> row < height\<close>.
\<close>

theorem C1_lat_lon_to_screen_in_grid:
  assumes "- 90 \<le> lat" and "lat \<le> 90" and "0 < width" and "0 < height"
  shows "\<exists>col row. lat_lon_to_screen lat lon width height longitude_shift = Inr (col, row)
           \<and> 0 \<le> col \<and> col < width \<and> 0 \<le> row \<and> row < height"
  using assms unfolding lat_lon_to_screen_def Let_def by auto

theorem C1_witness:
  "- 90 \<le> (45::real) \<and> (45::real) \<le> 90 \<and> (0::int) < 20 \<and> (0::int) < 10
   \<and> (\<exists>col row. lat_lon_to_screen 45 190 20 10 3 = Inr (col, row)
           \<and> 0 \<le> col \<and> col < 20 \<and> 0 \<le> row \<and> row < 10)"
  using C1_lat_lon_to_screen_in_grid [of 45 20 10 190 3] by simp

section \<open>Properties of the land rasterizer\<close>

text \<open>
  The population loops never raise on a grid of the requested size, keep its size, and
  mark exactly the cells that some in-land sample point is mapped to.
\<close>

lemma lat_lon_to_screen_range:
  assumes "0 < width" and "0 < height"
  shows "\<exists>col row. lat_lon_to_screen lat lon width height r = Inr (col, row)
           \<and> 0 \<le> col \<and> col < width \<and> 0 \<le> row \<and> row < height"
  using assms unfolding lat_lon_to_screen_def Let_def by auto

lemma np_set_in_range:
  assumes "0 \<le> y" "y < int (length g)" "0 \<le> x" "x < int (length (g ! nat y))"
  shows "np_set g y x c = Inr (g[nat y := (g ! nat y)[nat x := c]])"
  using assms unfolding np_set_def Let_def by simp

lemma lon_loop_spec:
  assumes "0 < w" "0 < h" "length g = nat h" "\<forall>row \<in> set g. length row = nat w"
  shows "\<exists>g'. lon_loop shapes r w h lat lons g = Inr g' \<and> length g' = nat h
           \<and> (\<forall>row \<in> set g'. length row = nat w)
           \<and> (\<forall>y < nat h. \<forall>x < nat w. g' ! y ! x =
                (if \<exists>lon \<in> set lons. in_land shapes lon lat
                       \<and> lat_lon_to_screen lat lon w h r = Inr (int x, int y)
                 then CHR ''#'' else g ! y ! x))"
  using assms(3,4)
proof (induction lons arbitrary: g)
  case Nil
  then show ?case by simp
next
  case (Cons lon lons)
  show ?case
  proof (cases "in_land shapes lon lat")
    case False
    with Cons.IH [OF Cons.prems] show ?thesis by auto
  next
    case True
    from lat_lon_to_screen_range [OF assms(1,2)] obtain cx cy where
      m: "lat_lon_to_screen lat lon w h r = Inr (cx, cy)" "0 \<le> cx" "cx < w" "0 \<le> cy" "cy < h"
      by blast
    let ?g1 = "g[nat cy := (g ! nat cy)[nat cx := CHR ''#'']]"
    have cy: "nat cy < length g" using m Cons.prems by simp
    then have rowlen: "length (g ! nat cy) = nat w" using Cons.prems by simp
    have s: "np_set g cy cx (CHR ''#'') = Inr ?g1"
      using m cy rowlen by (intro np_set_in_range) auto
    have d1: "length ?g1 = nat h" using Cons.prems by simp
    have d2: "\<forall>row \<in> set ?g1. length row = nat w"
    proof
      fix row assume "row \<in> set ?g1"
      then have "row \<in> insert ((g ! nat cy)[nat cx := CHR ''#'']) (set g)"
        using set_update_subset_insert by fast
      then show "length row = nat w" using rowlen Cons.prems by auto
    qed
    from Cons.IH [OF d1 d2] obtain g' where
      g': "lon_loop shapes r w h lat lons ?g1 = Inr g'" "length g' = nat h"
          "\<forall>row \<in> set g'. length row = nat w"
          "\<forall>y < nat h. \<forall>x < nat w. g' ! y ! x =
                (if \<exists>lon \<in> set lons. in_land shapes lon lat
                       \<and> lat_lon_to_screen lat lon w h r = Inr (int x, int y)
                 then CHR ''#'' else ?g1 ! y ! x)"
      by blast
    have upd: "?g1 ! y ! x = (if int x = cx \<and> int y = cy then CHR ''#'' else g ! y ! x)"
      if "y < nat h" "x < nat w" for y x
    proof -
      have "y < length g" using that Cons.prems by simp
      moreover have "x < length (g ! y)" using that Cons.prems \<open>y < length g\<close> by simp
      ultimately have b: "y < length g" "x < length (g ! y)" by simp_all
      show ?thesis
      proof (cases "y = nat cy")
        case True
        then have "?g1 ! y ! x = (g ! y)[nat cx := CHR ''#''] ! x"
          using b by simp
        also have "\<dots> = (if x = nat cx then CHR ''#'' else g ! y ! x)"
          using b by (simp add: nth_list_update)
        finally show ?thesis using True m by auto
      next
        case False
        then have "?g1 ! y = g ! y" by simp
        moreover have "int y \<noteq> cy" using False m by auto
        ultimately show ?thesis by simp
      qed
    qed
    have "\<forall>y < nat h. \<forall>x < nat w. g' ! y ! x =
                (if \<exists>l \<in> set (lon # lons). in_land shapes l lat
                       \<and> lat_lon_to_screen lat l w h r = Inr (int x, int y)
                 then CHR ''#'' else g ! y ! x)"
      using g'(4) upd m(1) True by auto
    moreover have "lon_loop shapes r w h lat (lon # lons) g = Inr g'"
      using True m(1) s g'(1) by simp
    ultimately show ?thesis using g'(2,3) by blast
  qed
qed

lemma lat_loop_spec:
  assumes "0 < w" "0 < h" "length g = nat h" "\<forall>row \<in> set g. length row = nat w"
  shows "\<exists>g'. lat_loop shapes r w h lats lons g = Inr g' \<and> length g' = nat h
           \<and> (\<forall>row \<in> set g'. length row = nat w)
           \<and> (\<forall>y < nat h. \<forall>x < nat w. g' ! y ! x =
                (if \<exists>lat \<in> set lats. \<exists>lon \<in> set lons. in_land shapes lon lat
                       \<and> lat_lon_to_screen lat lon w h r = Inr (int x, int y)
                 then CHR ''#'' else g ! y ! x))"
  using assms(3,4)
proof (induction lats arbitrary: g)
  case Nil
  then show ?case by simp
next
  case (Cons lat lats)
  from lon_loop_spec [OF assms(1,2) Cons.prems, of shapes r lat lons] obtain g1 where
    g1: "lon_loop shapes r w h lat lons g = Inr g1" "length g1 = nat h"
        "\<forall>row \<in> set g1. length row = nat w"
        "\<forall>y < nat h. \<forall>x < nat w. g1 ! y ! x =
                (if \<exists>lon \<in> set lons. in_land shapes lon lat
                       \<and> lat_lon_to_screen lat lon w h r = Inr (int x, int y)
                 then CHR ''#'' else g ! y ! x)"
    by blast
  from Cons.IH [OF g1(2,3)] obtain g' where
    g': "lat_loop shapes r w h lats lons g1 = Inr g'" "length g' = nat h"
        "\<forall>row \<in> set g'. length row = nat w"
        "\<forall>y < nat h. \<forall>x < nat w. g' ! y ! x =
                (if \<exists>lat \<in> set lats. \<exists>lon \<in> set lons. in_land shapes lon lat
                       \<and> lat_lon_to_screen lat lon w h r = Inr (int x, int y)
                 then CHR ''#'' else g1 ! y ! x)"
    by blast
  have "\<forall>y < nat h. \<forall>x < nat w. g' ! y ! x =
                (if \<exists>l \<in> set (lat # lats). \<exists>lon \<in> set lons. in_land shapes lon l
                       \<and> lat_lon_to_screen l lon w h r = Inr (int x, int y)
                 then CHR ''#'' else g ! y ! x)"
    using g'(4) g1(4) by auto
  moreover have "lat_loop shapes r w h (lat # lats) lons g = Inr g'"
    using g1(1) g'(1) by simp
  ultimately show ?case using g'(2,3) by blast
qed

lemma lat_loop_no_lons: "lat_loop shapes r w h lats [] g = Inr g"
  by (induction lats) simp_all

lemma land_cell_iff:
  "land_cell shapes r w h y x \<longleftrightarrow>
     (\<exists>lat \<in> set (sample_lats h). \<exists>lon \<in> set (sample_lons w). in_land shapes lon lat
        \<and> lat_lon_to_screen lat lon w h r = Inr (int x, int y))"
  unfolding land_cell_def list_ex_iff by simp

lemma populate_spec:
  assumes "0 \<le> w" "0 \<le> h"
  shows "\<exists>g. populate shapes r w h = Inr g \<and> length g = nat h
           \<and> (\<forall>row \<in> set g. length row = nat w)
           \<and> (\<forall>y < nat h. \<forall>x < nat w. g ! y ! x =
                (if land_cell shapes r w h y x then CHR ''#'' else CHR '' ''))"
proof (cases "0 < w \<and> 0 < h")
  case True
  then have pos: "0 < w" "0 < h" by simp_all
  have d: "length (np_full h w (CHR '' '')) = nat h"
      "\<forall>row \<in> set (np_full h w (CHR '' '')). length row = nat w"
    by (simp_all add: np_full_def)
  have c: "np_full h w (CHR '' '') ! y ! x = CHR '' ''" if "y < nat h" "x < nat w" for y x
    using that by (simp add: np_full_def)
  from lat_loop_spec [OF pos d, of shapes r "sample_lats h" "sample_lons w"] c assms
  show ?thesis
    unfolding populate_def land_cell_iff by auto
next
  case False
  with assms have "w = 0 \<or> h = 0" by auto
  then show ?thesis
  proof
    assume "w = 0"
    then show ?thesis using assms
      by (simp add: populate_def sample_lons_def np_linspace_def lat_loop_no_lons np_full_def)
  next
    assume "h = 0"
    then show ?thesis using assms
      by (simp add: populate_def sample_lats_def np_linspace_def np_full_def)
  qed
qed

lemma populate_land_or_ocean:
  assumes "populate shapes r w h = Inr g"
  shows "land_or_ocean g"
proof -
  have nn: "0 \<le> w" "0 \<le> h" using assms by (auto simp: populate_def split: if_splits)
  from populate_spec [OF nn, of shapes r] assms have
    l: "length g = nat h" "\<forall>row \<in> set g. length row = nat w"
    and c: "\<forall>y < nat h. \<forall>x < nat w. g ! y ! x = CHR '' '' \<or> g ! y ! x = CHR ''#''"
    by auto
  show ?thesis
    unfolding land_or_ocean_def list_all_length
    using l c by (metis nth_mem)
qed

section \<open>Properties of the cache\<close>

text \<open>
  What a call of \<open>generate_globe\<close> that returns has done to the store and the cache,
  and the invariant of every state that the render loop reaches.
\<close>

lemma generate_globe_hit:
  assumes "LAND_CACHE s (w, h) = Some c"
  shows "generate_globe shapes r w h s = Inr (length (heap s), s\<lparr>heap := heap s @ [heap s ! c]\<rparr>)"
  using assms by (simp add: generate_globe_def np_copy_def alloc_def)

lemma generate_globe_miss:
  assumes "LAND_CACHE s (w, h) = None" and "populate shapes r w h = Inr g"
  shows "generate_globe shapes r w h s =
           Inr (Suc (length (heap s)),
                s\<lparr>heap := heap s @ [g, g],
                  LAND_CACHE := (LAND_CACHE s)((w, h) \<mapsto> length (heap s))\<rparr>)"
  using assms by (simp add: generate_globe_def np_copy_def alloc_def)

lemma generate_globe_miss_error:
  assumes "LAND_CACHE s (w, h) = None" and "populate shapes r w h = Inl e"
  shows "generate_globe shapes r w h s = Inl e"
  using assms by (simp add: generate_globe_def)

lemma generate_globe_result:
  assumes "cache_wf s" and "generate_globe shapes r w h s = Inr (a, s')"
  shows "\<exists>c. LAND_CACHE s' (w, h) = Some c \<and> c < a \<and> a < length (heap s')
           \<and> heap s' ! a = heap s' ! c
           \<and> cache_wf s'
           \<and> (\<forall>k b. LAND_CACHE s' k = Some b \<longrightarrow> b < a)
           \<and> (\<forall>b < length (heap s). heap s' ! b = heap s ! b)
           \<and> (\<forall>k. k \<noteq> (w, h) \<longrightarrow> LAND_CACHE s' k = LAND_CACHE s k)
           \<and> (case LAND_CACHE s (w, h) of
                 Some c0 \<Rightarrow> c = c0
               | None \<Rightarrow> populate shapes r w h = Inr (heap s' ! c))"
proof (cases "LAND_CACHE s (w, h)")
  case (Some c)
  then have c: "c < length (heap s)" using assms(1) by (simp add: cache_wf_def)
  from generate_globe_hit [OF Some, of shapes r] assms(2)
  have a: "a = length (heap s)" and s': "s' = s\<lparr>heap := heap s @ [heap s ! c]\<rparr>" by simp_all
  show ?thesis
    using Some c assms(1) unfolding a s' cache_wf_def
    by (auto simp: nth_append less_Suc_eq)
next
  case None
  then obtain g where g: "populate shapes r w h = Inr g"
    using assms(2) generate_globe_miss_error [OF None, of shapes r]
    by (cases "populate shapes r w h") auto
  from generate_globe_miss [OF None g] assms(2)
  have a: "a = Suc (length (heap s))"
    and s': "s' = s\<lparr>heap := heap s @ [g, g],
                  LAND_CACHE := (LAND_CACHE s)((w, h) \<mapsto> length (heap s))\<rparr>" by simp_all
  show ?thesis
    using None g assms(1) unfolding a s' cache_wf_def
    by (auto simp: nth_append less_Suc_eq)
qed

lemma generate_globe_total:
  assumes "0 \<le> w" "0 \<le> h"
  shows "\<exists>a s'. generate_globe shapes r w h s = Inr (a, s')"
proof (cases "LAND_CACHE s (w, h)")
  case (Some c)
  from generate_globe_hit [OF this] show ?thesis by blast
next
  case None
  from populate_spec [OF assms, of shapes r] obtain g where "populate shapes r w h = Inr g"
    by blast
  from generate_globe_miss [OF None this] show ?thesis by blast
qed

lemma cache_inv_wf: "cache_inv s \<Longrightarrow> cache_wf s"
  by (simp add: cache_inv_def cache_wf_def)

lemma generate_globe_inv:
  assumes "cache_inv s" and "generate_globe shapes r w h s = Inr (a, s')"
  shows "cache_inv s' \<and> land_or_ocean (heap s' ! a)"
proof -
  from generate_globe_result [OF cache_inv_wf [OF assms(1)] assms(2)] obtain c where
    c: "LAND_CACHE s' (w, h) = Some c" "c < a" "a < length (heap s')"
       "heap s' ! a = heap s' ! c" "cache_wf s'"
       "\<forall>b < length (heap s). heap s' ! b = heap s ! b"
       "\<forall>k. k \<noteq> (w, h) \<longrightarrow> LAND_CACHE s' k = LAND_CACHE s k"
       "case LAND_CACHE s (w, h) of Some c0 \<Rightarrow> c = c0
        | None \<Rightarrow> populate shapes r w h = Inr (heap s' ! c)"
    by blast
  have key: "land_or_ocean (heap s' ! c)"
  proof (cases "LAND_CACHE s (w, h)")
    case None
    with c(8) show ?thesis by (simp add: populate_land_or_ocean)
  next
    case (Some c0)
    with c(8) assms(1) c(6) show ?thesis by (auto simp: cache_inv_def)
  qed
  have "b < length (heap s') \<and> land_or_ocean (heap s' ! b)" if "LAND_CACHE s' k = Some b" for k b
  proof (cases "k = (w, h)")
    case True
    with that c(1) have "b = c" by simp
    moreover from c(5) that have "b < length (heap s')"
      unfolding cache_wf_def by blast
    ultimately show ?thesis using key by simp
  next
    case False
    with that c(7) have "LAND_CACHE s k = Some b" by simp
    with assms(1) have "b < length (heap s)" "land_or_ocean (heap s ! b)"
      unfolding cache_inv_def by blast+
    moreover from c(5) that have "b < length (heap s')"
      unfolding cache_wf_def by blast
    ultimately show ?thesis using c(6) by simp
  qed
  then show ?thesis using key c(4) by (auto simp: cache_inv_def)
qed

lemma apply_day_night_shading_frame:
  assumes "apply_day_night_shading a r w hour s = Inr (a', s')"
  shows "a' = a \<and> LAND_CACHE s' = LAND_CACHE s \<and> length (heap s') = length (heap s)
           \<and> (\<forall>b. b \<noteq> a \<longrightarrow> heap s' ! b = heap s ! b)"
  using assms by (auto simp: apply_day_night_shading_def split: sum.splits)

lemma render_frame_inv:
  assumes "cache_inv s" and "render_frame shapes r w h hour s = Inr (a, s')"
  shows "cache_inv s'"
proof -
  from assms(2) obtain a1 s1 where
    g: "generate_globe shapes r w h s = Inr (a1, s1)"
    and sh: "apply_day_night_shading a1 r w hour s1 = Inr (a, s')"
    by (auto simp: render_frame_def split: sum.splits)
  from generate_globe_inv [OF assms(1) g] have i1: "cache_inv s1" by simp
  from generate_globe_result [OF cache_inv_wf [OF assms(1)] g]
  have below: "\<forall>k b. LAND_CACHE s1 k = Some b \<longrightarrow> b < a1" by blast
  from apply_day_night_shading_frame [OF sh] have
    f: "LAND_CACHE s' = LAND_CACHE s1" "length (heap s') = length (heap s1)"
       "\<forall>b. b \<noteq> a1 \<longrightarrow> heap s' ! b = heap s1 ! b"
    by simp_all
  show ?thesis
    unfolding cache_inv_def
  proof (intro allI impI)
    fix k b assume "LAND_CACHE s' k = Some b"
    then have kb: "LAND_CACHE s1 k = Some b" using f(1) by simp
    with below have "b < a1" by blast
    then have "b \<noteq> a1" by simp
    with f(3) have "heap s' ! b = heap s1 ! b" by simp
    moreover from i1 kb have "b < length (heap s1) \<and> land_or_ocean (heap s1 ! b)"
      unfolding cache_inv_def by blast
    ultimately show "b < length (heap s') \<and> land_or_ocean (heap s' ! b)"
      using f(2) by simp
  qed
qed

lemma init_state_inv: "cache_inv init_state"
  by (simp add: cache_inv_def init_state_def)

lemma reachable_inv: "reachable shapes s \<Longrightarrow> cache_inv s"
  by (induction rule: reachable.induct) (auto intro: init_state_inv render_frame_inv)

text \<open>
  Claim C5. For every shape set and every pair of rotation offsets, two calls of
  \<open>generate_globe\<close> with the same (width, height) return grids that are equal to each
  other: after the first call the key is in the cache, and the second call returns a copy
  of the cached array without touching the cache. The grids are compared as they are
  when each call returns.
\<close>

theorem C5_second_call_is_cache_hit:
  assumes "cache_wf s" and "0 \<le> width" and "0 \<le> height"
  shows "\<exists>a1 s1 a2 s2 c.
           generate_globe land_shapes r1 width height s = Inr (a1, s1)
         \<and> generate_globe land_shapes r2 width height s1 = Inr (a2, s2)
         \<and> heap s2 ! a2 = heap s1 ! a1
         \<and> LAND_CACHE s1 (width, height) = Some c
         \<and> heap s2 ! a2 = heap s1 ! c
         \<and> LAND_CACHE s2 = LAND_CACHE s1"
proof -
  from generate_globe_total [OF assms(2,3)] obtain a1 s1 where
    g1: "generate_globe land_shapes r1 width height s = Inr (a1, s1)" by blast
  from generate_globe_result [OF assms(1) g1] obtain c where
    c: "LAND_CACHE s1 (width, height) = Some c" "heap s1 ! a1 = heap s1 ! c"
       "c < a1" "a1 < length (heap s1)"
    by blast
  let ?s2 = "s1\<lparr>heap := heap s1 @ [heap s1 ! c]\<rparr>"
  from generate_globe_hit [OF c(1)] have
    g2: "generate_globe land_shapes r2 width height s1 = Inr (length (heap s1), ?s2)" .
  have "heap ?s2 ! length (heap s1) = heap s1 ! c" by simp
  with g1 g2 c show ?thesis by auto
qed

theorem C5_witness:
  "cache_wf init_state \<and> (0::int) \<le> 2 \<and> (0::int) \<le> 1
   \<and> (\<exists>a1 s1 a2 s2 c.
           generate_globe [\<lambda>lon lat. - 100 < lon \<and> lon < - 20 \<and> - 100 < lat \<and> lat < 0] 0 2 1 init_state
             = Inr (a1, s1)
         \<and> generate_globe [\<lambda>lon lat. - 100 < lon \<and> lon < - 20 \<and> - 100 < lat \<and> lat < 0] 180 2 1 s1
             = Inr (a2, s2)
         \<and> heap s2 ! a2 = heap s1 ! a1
         \<and> LAND_CACHE s1 (2, 1) = Some c
         \<and> heap s2 ! a2 = heap s1 ! c
         \<and> LAND_CACHE s2 = LAND_CACHE s1
         \<and> heap s1 ! a1 = [''# ''])"
proof -
  let ?box = "[\<lambda>lon lat. - 100 < lon \<and> lon < - 20 \<and> - 100 < lat \<and> lat < (0::real)]"
  have h: "cache_wf init_state" by (simp add: cache_wf_def init_state_def)
  have e: "generate_globe ?box 0 2 1 init_state
      = Inr (1, \<lparr>heap = [[''# ''], [''# '']], LAND_CACHE = [(2, 1) \<mapsto> 0]\<rparr>)"
    by (simp add: generate_globe_def init_state_def alloc_def np_copy_def
      populate_def sample_lats_def sample_lons_def np_linspace_def np_full_def in_land_def
      lat_lon_to_screen_def lon_shifted_def py_fmod_def py_int_def np_set_def upt_rec
      numeral_2_eq_2)
  from C5_second_call_is_cache_hit [OF h, of 2 1 ?box 0 180] obtain a1 s1 a2 s2 c where
    r: "generate_globe ?box 0 2 1 init_state = Inr (a1, s1)"
       "generate_globe ?box 180 2 1 s1 = Inr (a2, s2)"
       "heap s2 ! a2 = heap s1 ! a1" "LAND_CACHE s1 (2, 1) = Some c"
       "heap s2 ! a2 = heap s1 ! c" "LAND_CACHE s2 = LAND_CACHE s1"
    by auto
  from r(1) e have "a1 = 1" and "s1 = \<lparr>heap = [[''# ''], [''# '']], LAND_CACHE = [(2, 1) \<mapsto> 0]\<rparr>"
    by simp_all
  then have "heap s1 ! a1 = [''# '']" by simp
  with r have "\<exists>a1 s1 a2 s2 c.
           generate_globe ?box 0 2 1 init_state = Inr (a1, s1)
         \<and> generate_globe ?box 180 2 1 s1 = Inr (a2, s2)
         \<and> heap s2 ! a2 = heap s1 ! a1
         \<and> LAND_CACHE s1 (2, 1) = Some c
         \<and> heap s2 ! a2 = heap s1 ! c
         \<and> LAND_CACHE s2 = LAND_CACHE s1
         \<and> heap s1 ! a1 = [''# '']"
    by blast
  with h show ?thesis by simp
qed

text \<open>
  Claim C6. The array returned by \<open>generate_globe\<close> is a fresh copy of the cached
  array: it has the cached contents, its address differs from every address held by the
  cache, and so writing any grid at that address, or shading it in place with
  \<open>apply_day_night_shading\<close>, leaves every cached array and the cache itself unchanged.
\<close>

theorem C6_returned_grid_is_fresh_copy:
  assumes "cache_wf s" and "0 \<le> width" and "0 \<le> height"
  shows "\<exists>globe s' c.
           generate_globe land_shapes r width height s = Inr (globe, s')
         \<and> LAND_CACHE s' (width, height) = Some c
         \<and> heap s' ! globe = heap s' ! c
         \<and> (\<forall>k b g. LAND_CACHE s' k = Some b \<longrightarrow>
               b \<noteq> globe \<and> (heap s')[globe := g] ! b = heap s' ! b)
         \<and> (\<forall>r' w' hour a'' s''.
               apply_day_night_shading globe r' w' hour s' = Inr (a'', s'') \<longrightarrow>
               LAND_CACHE s'' = LAND_CACHE s'
               \<and> (\<forall>k b. LAND_CACHE s' k = Some b \<longrightarrow> heap s'' ! b = heap s' ! b))"
proof -
  from generate_globe_total [OF assms(2,3)] obtain globe s' where
    g: "generate_globe land_shapes r width height s = Inr (globe, s')" by blast
  from generate_globe_result [OF assms(1) g] obtain c where
    c: "LAND_CACHE s' (width, height) = Some c" "heap s' ! globe = heap s' ! c"
    and below: "\<forall>k b. LAND_CACHE s' k = Some b \<longrightarrow> b < globe"
    by blast
  have ne: "b \<noteq> globe" if "LAND_CACHE s' k = Some b" for k b
    using below that by fastforce
  have m: "\<forall>k b g. LAND_CACHE s' k = Some b \<longrightarrow>
               b \<noteq> globe \<and> (heap s')[globe := g] ! b = heap s' ! b"
    using ne by (metis nth_list_update_neq)
  have sh: "LAND_CACHE s'' = LAND_CACHE s'
               \<and> (\<forall>k b. LAND_CACHE s' k = Some b \<longrightarrow> heap s'' ! b = heap s' ! b)"
    if "apply_day_night_shading globe r' w' hour s' = Inr (a'', s'')" for r' w' hour a'' s''
    using apply_day_night_shading_frame [OF that] ne by blast
  from g c m sh show ?thesis by blast
qed

theorem C6_witness:
  "cache_wf \<lparr>heap = [[''# '']], LAND_CACHE = [(2, 1) \<mapsto> 0]\<rparr> \<and> (0::int) \<le> 2 \<and> (0::int) \<le> 1
   \<and> (\<exists>globe s' c.
           generate_globe [] 3 2 1 \<lparr>heap = [[''# '']], LAND_CACHE = [(2, 1) \<mapsto> 0]\<rparr> = Inr (globe, s')
         \<and> LAND_CACHE s' (2, 1) = Some c
         \<and> heap s' ! globe = heap s' ! c
         \<and> (\<forall>k b g. LAND_CACHE s' k = Some b \<longrightarrow>
               b \<noteq> globe \<and> (heap s')[globe := g] ! b = heap s' ! b)
         \<and> (\<forall>r' w' hour a'' s''.
               apply_day_night_shading globe r' w' hour s' = Inr (a'', s'') \<longrightarrow>
               LAND_CACHE s'' = LAND_CACHE s'
               \<and> (\<forall>k b. LAND_CACHE s' k = Some b \<longrightarrow> heap s'' ! b = heap s' ! b)))"
proof -
  have h: "cache_wf \<lparr>heap = [[''# '']], LAND_CACHE = [(2, 1) \<mapsto> 0]\<rparr>"
    by (simp add: cache_wf_def)
  show ?thesis
    using h C6_returned_grid_is_fresh_copy [OF h, of 2 1 "[]" 3] by simp
qed

text \<open>
  Claim C10. In every state that the render loop reaches, every cell of the grid
  returned by \<open>generate_globe\<close> is the blank or the land marker \<^verbatim>\<open>#\<close>: shading
  only ever writes to returned copies, so no other glyph enters a cached array.
\<close>

theorem C10_returned_grid_is_land_or_ocean:
  assumes "reachable land_shapes s" and "0 \<le> width" and "0 \<le> height"
  shows "\<exists>globe s'. generate_globe land_shapes r width height s = Inr (globe, s')
           \<and> land_or_ocean (heap s' ! globe)"
proof -
  from generate_globe_total [OF assms(2,3)] obtain globe s' where
    g: "generate_globe land_shapes r width height s = Inr (globe, s')" by blast
  from generate_globe_inv [OF reachable_inv [OF assms(1)] g] g show ?thesis by blast
qed

theorem C10_witness:
  "reachable [\<lambda>lon lat. - 100 < lon \<and> lon < - 20 \<and> - 100 < lat \<and> lat < 0]
      \<lparr>heap = [[''# ''], [''@ '']], LAND_CACHE = [(2, 1) \<mapsto> 0]\<rparr>
   \<and> (0::int) \<le> 2 \<and> (0::int) \<le> 1
   \<and> (\<exists>globe s'.
         generate_globe [\<lambda>lon lat. - 100 < lon \<and> lon < - 20 \<and> - 100 < lat \<and> lat < 0] 3 2 1
           \<lparr>heap = [[''# ''], [''@ '']], LAND_CACHE = [(2, 1) \<mapsto> 0]\<rparr> = Inr (globe, s')
       \<and> land_or_ocean (heap s' ! globe)
       \<and> heap s' ! globe = [''# ''])"
proof -
  let ?box = "[\<lambda>lon lat. - 100 < lon \<and> lon < - 20 \<and> - 100 < lat \<and> lat < (0::real)]"
  let ?s1 = "\<lparr>heap = [[''# ''], [''@ '']], LAND_CACHE = [(2, 1) \<mapsto> 0]\<rparr>"
  have f: "render_frame ?box 0 2 1 0 init_state = Inr (1, ?s1)"
    by (simp add: render_frame_def generate_globe_def init_state_def alloc_def np_copy_def
      populate_def sample_lats_def sample_lons_def np_linspace_def np_full_def in_land_def
      lat_lon_to_screen_def lon_shifted_def py_fmod_def py_int_def np_set_def upt_rec
      numeral_2_eq_2 apply_day_night_shading_def shade_glyph_def shade_index_def
      brightness_def column_lon_def sun_longitude_def ASCII_SHADES_def)
  have re: "reachable ?box ?s1"
    by (rule reachable.frame [OF reachable.start f])
  have g: "generate_globe ?box 3 2 1 ?s1
      = Inr (2, \<lparr>heap = [[''# ''], [''@ ''], [''# '']], LAND_CACHE = [(2, 1) \<mapsto> 0]\<rparr>)"
    by (simp add: generate_globe_def alloc_def np_copy_def)
  from C10_returned_grid_is_land_or_ocean [OF re, of 2 1 3] obtain globe s' where
    r: "generate_globe ?box 3 2 1 ?s1 = Inr (globe, s')" "land_or_ocean (heap s' ! globe)"
    by auto
  from r(1) g have "globe = 2"
    and "s' = \<lparr>heap = [[''# ''], [''@ ''], [''# '']], LAND_CACHE = [(2, 1) \<mapsto> 0]\<rparr>"
    by simp_all
  then have "heap s' ! globe = [''# '']" by simp
  with r have "\<exists>globe s'. generate_globe ?box 3 2 1 ?s1 = Inr (globe, s')
       \<and> land_or_ocean (heap s' ! globe) \<and> heap s' ! globe = [''# '']"
    by blast
  with re show ?thesis by simp
qed

text \<open>
  On a cache miss the sample points are mapped with the rotation offset of the call
  (line 52), and the result is stored under the key (width, height) alone (line 55).
  For a land box around longitude 5 at the smallest size that the render loop uses, the
  land falls into column 10 when the populating call has offset 0 and into column 15
  when it has offset 90.
\<close>

lemma column_of_box_unrotated:
  assumes "0 < lon" "lon < 10"
  shows "\<exists>row. lat_lon_to_screen lat lon 20 10 0 = Inr (10, row)"
proof -
  have f: "\<lfloor>lon / 360\<rfloor> = 0" using assms by (simp add: floor_eq_iff)
  then have ls: "lon_shifted lon 0 = lon"
    using assms by (simp add: lon_shifted_def py_fmod_def)
  have "\<lfloor>(lon + 180) / 360 * 20\<rfloor> = 10" using assms by (simp add: floor_eq_iff)
  then show ?thesis
    using assms ls by (simp add: lat_lon_to_screen_def py_int_def Let_def)
qed

lemma column_of_box_rotated:
  assumes "0 < lon" "lon < 10"
  shows "\<exists>row. lat_lon_to_screen lat lon 20 10 90 = Inr (15, row)"
proof -
  have f: "\<lfloor>(lon + 90) / 360\<rfloor> = 0" using assms by (simp add: floor_eq_iff)
  then have ls: "lon_shifted lon 90 = lon + 90"
    using assms by (simp add: lon_shifted_def py_fmod_def)
  have "\<lfloor>(lon + 90 + 180) / 360 * 20\<rfloor> = 15" using assms by (simp add: floor_eq_iff)
  then show ?thesis
    using assms ls by (simp add: lat_lon_to_screen_def py_int_def Let_def)
qed

lemma box_sample_lat: "- 90 + 10 * (180 / 19) \<in> set (sample_lats 10)"
proof -
  have "(10::nat) \<in> {0..<20}" by simp
  then have "(\<lambda>i. - 90 + real i * ((90 - (- 90)) / of_int (10 * 2 - 1))) 10
      \<in> (\<lambda>i. - 90 + real i * ((90 - (- 90)) / of_int (10 * 2 - 1))) ` {0..<20}"
    by (rule imageI)
  then show ?thesis by (simp add: sample_lats_def np_linspace_def)
qed

lemma box_sample_lon: "- 180 + 20 * (360 / 39) \<in> set (sample_lons 20)"
proof -
  have "(20::nat) \<in> {0..<40}" by simp
  then have "(\<lambda>i. - 180 + real i * ((180 - (- 180)) / of_int (20 * 2 - 1))) 20
      \<in> (\<lambda>i. - 180 + real i * ((180 - (- 180)) / of_int (20 * 2 - 1))) ` {0..<40}"
    by (rule imageI)
  then show ?thesis by (simp add: sample_lons_def np_linspace_def)
qed

lemma land_cell_box_unrotated:
  "land_cell [\<lambda>lon lat. 0 < lon \<and> lon < 10 \<and> 0 < lat \<and> lat < 10] 0 20 10 4 10"
proof -
  have "lat_lon_to_screen (- 90 + 10 * (180 / 19)) (- 180 + 20 * (360 / 39)) 20 10 0 = Inr (10, 4)"
    by (simp add: lat_lon_to_screen_def lon_shifted_def py_fmod_def py_int_def)
  moreover have "in_land [\<lambda>lon lat. 0 < lon \<and> lon < 10 \<and> 0 < lat \<and> lat < 10]
      (- 180 + 20 * (360 / 39)) (- 90 + 10 * (180 / 19))"
    by (simp add: in_land_def)
  ultimately show ?thesis
    unfolding land_cell_iff using box_sample_lat box_sample_lon
    by (intro bexI [of _ "- 90 + 10 * (180 / 19)"] bexI [of _ "- 180 + 20 * (360 / 39)"]) simp_all
qed

lemma land_cell_box_rotated:
  "\<not> land_cell [\<lambda>lon lat. 0 < lon \<and> lon < 10 \<and> 0 < lat \<and> lat < 10] 90 20 10 4 10"
proof
  assume "land_cell [\<lambda>lon lat. 0 < lon \<and> lon < 10 \<and> 0 < lat \<and> lat < 10] 90 20 10 4 10"
  then obtain lat lon where
    "in_land [\<lambda>lon lat. 0 < lon \<and> lon < 10 \<and> 0 < lat \<and> lat < 10] lon lat"
    and m: "lat_lon_to_screen lat lon 20 10 90 = Inr (int 10, int 4)"
    unfolding land_cell_iff by blast
  then have "0 < lon" "lon < 10" by (simp_all add: in_land_def)
  from column_of_box_rotated [OF this, of lat] m show False by auto
qed

lemma populate_20_10_depends_on_rotation:
  "\<exists>g0 g90.
     populate [\<lambda>lon lat. 0 < lon \<and> lon < 10 \<and> 0 < lat \<and> lat < 10] 0 20 10 = Inr g0
   \<and> populate [\<lambda>lon lat. 0 < lon \<and> lon < 10 \<and> 0 < lat \<and> lat < 10] 90 20 10 = Inr g90
   \<and> g0 ! 4 ! 10 = CHR ''#'' \<and> g90 ! 4 ! 10 = CHR '' ''"
proof -
  have nn: "(0::int) \<le> 20" "(0::int) \<le> 10" by simp_all
  from populate_spec [OF nn, of "[\<lambda>lon lat. 0 < lon \<and> lon < 10 \<and> 0 < lat \<and> lat < 10]" 0]
  obtain g0 where
    g0: "populate [\<lambda>lon lat. 0 < lon \<and> lon < 10 \<and> 0 < lat \<and> lat < 10] 0 20 10 = Inr g0"
        "\<forall>y < nat 10. \<forall>x < nat 20. g0 ! y ! x =
           (if land_cell [\<lambda>lon lat. 0 < lon \<and> lon < 10 \<and> 0 < lat \<and> lat < 10] 0 20 10 y x
            then CHR ''#'' else CHR '' '')"
    by blast
  from populate_spec [OF nn, of "[\<lambda>lon lat. 0 < lon \<and> lon < 10 \<and> 0 < lat \<and> lat < 10]" 90]
  obtain g90 where
    g90: "populate [\<lambda>lon lat. 0 < lon \<and> lon < 10 \<and> 0 < lat \<and> lat < 10] 90 20 10 = Inr g90"
        "\<forall>y < nat 10. \<forall>x < nat 20. g90 ! y ! x =
           (if land_cell [\<lambda>lon lat. 0 < lon \<and> lon < 10 \<and> 0 < lat \<and> lat < 10] 90 20 10 y x
            then CHR ''#'' else CHR '' '')"
    by blast
  have "g0 ! 4 ! 10 = CHR ''#''"
    using g0(2) land_cell_box_unrotated by simp
  moreover have "g90 ! 4 ! 10 = CHR '' ''"
    using g90(2) land_cell_box_rotated by simp
  ultimately show ?thesis using g0(1) g90(1) by blast
qed

text \<open>
  Claim C2, which the source does not meet. The claim is that on a cache miss every
  in-land sample point is mapped with rotation offset 0, so that the stored grid does not
  depend on the rotation offset of the populating call. Evaluated on an empty cache with
  width 2, height 1 and one land box holding the sample point (lon -60, lat -90): a
  populating call with offset 0 stores the row \<^verbatim>\<open>"# "\<close>, a populating call with offset
  180 stores the row \<^verbatim>\<open>" #"\<close>.
\<close>

theorem C2_cached_grid_depends_on_rotation:
  "cached_grid (2, 1)
     (generate_globe [\<lambda>lon lat. - 100 < lon \<and> lon < - 20 \<and> - 100 < lat \<and> lat < 0] 0 2 1 init_state)
     = Some [''# '']
   \<and> cached_grid (2, 1)
     (generate_globe [\<lambda>lon lat. - 100 < lon \<and> lon < - 20 \<and> - 100 < lat \<and> lat < 0] 180 2 1 init_state)
     = Some ['' #'']"
  by (simp add: cached_grid_def generate_globe_def init_state_def alloc_def np_copy_def
      populate_def sample_lats_def sample_lons_def np_linspace_def np_full_def in_land_def
      lat_lon_to_screen_def lon_shifted_def py_fmod_def py_int_def np_set_def upt_rec
      numeral_2_eq_2)

section \<open>Properties of the shading engine\<close>

lemma sun_longitude_bounds: "0 \<le> sun_longitude hour \<and> sun_longitude hour < 360"
  unfolding sun_longitude_def by simp

lemma py_int_nonneg: "0 \<le> x \<Longrightarrow> 0 \<le> py_int x"
  unfolding py_int_def by simp

lemma shade_index_in_range:
  "0 \<le> shade_index r w hour x \<and> nat (shade_index r w hour x) < length ASCII_SHADES"
proof -
  have "0 \<le> brightness r w hour x" unfolding brightness_def by simp
  then have "0 \<le> py_int (brightness r w hour x * of_int (int (length ASCII_SHADES) - 1))"
    by (intro py_int_nonneg) (simp add: ASCII_SHADES_def)
  then show ?thesis unfolding shade_index_def by (simp add: ASCII_SHADES_def)
qed

lemma shade_glyph_blank: "shade_glyph r w hour x (CHR '' '') = CHR '' ''"
  by (simp add: shade_glyph_def)

lemma shade_cols_ok:
  "\<forall>x \<in> set xs. x < length row \<Longrightarrow> distinct xs \<Longrightarrow>
   \<exists>row'. shade_cols r w hour xs row = Inr row' \<and> length row' = length row
     \<and> (\<forall>x < length row. row' ! x = (if x \<in> set xs then shade_glyph r w hour (int x) (row ! x) else row ! x))"
proof (induction xs arbitrary: row)
  case Nil
  then show ?case by simp
next
  case (Cons x xs)
  let ?row1 = "row[x := shade_glyph r w hour (int x) (row ! x)]"
  from Cons.prems have "\<forall>x \<in> set xs. x < length ?row1" "distinct xs" by simp_all
  from Cons.IH [OF this] obtain row' where
    r: "shade_cols r w hour xs ?row1 = Inr row'" "length row' = length ?row1"
       "\<forall>y < length ?row1. row' ! y = (if y \<in> set xs then shade_glyph r w hour (int y) (?row1 ! y) else ?row1 ! y)"
    by blast
  have "\<forall>y < length row. row' ! y = (if y \<in> set (x # xs) then shade_glyph r w hour (int y) (row ! y) else row ! y)"
    using r(3) Cons.prems by (auto simp: nth_list_update)
  with r Cons.prems show ?case by simp
qed

lemma shade_rows_ok:
  "\<forall>row \<in> set g. nat w \<le> length row \<Longrightarrow>
   \<exists>g'. shade_rows r w hour g = Inr g' \<and> length g' = length g
     \<and> (\<forall>y < length g. length (g' ! y) = length (g ! y)
          \<and> (\<forall>x < length (g ! y). g' ! y ! x = (if x < nat w then shade_glyph r w hour (int x) (g ! y ! x) else g ! y ! x)))"
proof (induction g)
  case Nil
  then show ?case by simp
next
  case (Cons row rows)
  from Cons.prems have "\<forall>x \<in> set [0..<nat w]. x < length row" "distinct [0..<nat w]" by auto
  from shade_cols_ok [OF this, of r w hour] obtain row' where
    a: "shade_cols r w hour [0..<nat w] row = Inr row'" "length row' = length row"
       "\<forall>x < length row. row' ! x = (if x < nat w then shade_glyph r w hour (int x) (row ! x) else row ! x)"
    by auto
  from Cons obtain rows' where
    b: "shade_rows r w hour rows = Inr rows'" "length rows' = length rows"
       "\<forall>y < length rows. length (rows' ! y) = length (rows ! y)
          \<and> (\<forall>x < length (rows ! y). rows' ! y ! x = (if x < nat w then shade_glyph r w hour (int x) (rows ! y ! x) else rows ! y ! x))"
    by auto
  show ?case using a b by (auto simp: nth_Cons split: nat.splits)
qed

text \<open>
  Claim C7. For every grid whose rows have at least \<open>width\<close> columns, every rotation
  offset and every hour, shading returns, and every cell that is blank in the input grid
  is blank in the shaded grid, whatever brightness its column has.
\<close>

theorem C7_ocean_cells_stay_blank:
  assumes "globe < length (heap s)"
    and "\<forall>row \<in> set (heap s ! globe). nat width \<le> length row"
    and "y < length (heap s ! globe)" and "x < length (heap s ! globe ! y)"
    and "heap s ! globe ! y ! x = CHR '' ''"
  shows "\<exists>s'. apply_day_night_shading globe r width hour s = Inr (globe, s')
           \<and> heap s' ! globe ! y ! x = CHR '' ''"
proof -
  from shade_rows_ok [OF assms(2), of r hour] obtain g' where
    g': "shade_rows r width hour (heap s ! globe) = Inr g'"
        "\<forall>y < length (heap s ! globe). \<forall>x < length (heap s ! globe ! y). g' ! y ! x =
           (if x < nat width then shade_glyph r width hour (int x) (heap s ! globe ! y ! x)
            else heap s ! globe ! y ! x)"
    by blast
  from g'(2) assms(3,4,5) have "g' ! y ! x = CHR '' ''"
    by (simp add: shade_glyph_blank)
  with g'(1) assms(1) show ?thesis
    by (simp add: apply_day_night_shading_def)
qed

theorem C7_witness:
  "(0::nat) < length (heap \<lparr>heap = [[''# # '']], LAND_CACHE = Map.empty\<rparr>)
   \<and> list_all (\<lambda>row. nat 4 \<le> length row) (heap \<lparr>heap = [[''# # '']], LAND_CACHE = Map.empty\<rparr> ! 0)
   \<and> (0::nat) < length (heap \<lparr>heap = [[''# # '']], LAND_CACHE = Map.empty\<rparr> ! 0)
   \<and> (1::nat) < length (heap \<lparr>heap = [[''# # '']], LAND_CACHE = Map.empty\<rparr> ! 0 ! 0)
   \<and> heap \<lparr>heap = [[''# # '']], LAND_CACHE = Map.empty\<rparr> ! 0 ! 0 ! 1 = CHR '' ''
   \<and> (\<exists>s'. apply_day_night_shading 0 3 4 12 \<lparr>heap = [[''# # '']], LAND_CACHE = Map.empty\<rparr> = Inr (0, s')
           \<and> heap s' ! 0 ! 0 ! 1 = CHR '' '')"
  using C7_ocean_cells_stay_blank
    [of 0 "\<lparr>heap = [[''# # '']], LAND_CACHE = Map.empty\<rparr>" 4 0 1 3 12]
  by simp








section \<open>Properties of the frame differencer\<close>

lemma changed_rows_eq:
  "i + length rows \<le> length prev \<Longrightarrow>
   changed_rows prev i rows = Inr (filter (\<lambda>j. prev ! j \<noteq> rows ! (j - i)) [i..<i + length rows])"
proof (induction rows arbitrary: i)
  case Nil
  then show ?case by simp
next
  case (Cons row rows)
  have "[i..<i + length (row # rows)] = i # [Suc i..<Suc i + length rows]"
    by (subst upt_rec) simp
  moreover have "filter (\<lambda>j. prev ! j \<noteq> (row # rows) ! (j - i)) [Suc i..<Suc i + length rows]
      = filter (\<lambda>j. prev ! j \<noteq> rows ! (j - Suc i)) [Suc i..<Suc i + length rows]"
  proof (rule filter_cong [OF refl])
    fix j assume "j \<in> set [Suc i..<Suc i + length rows]"
    then have "j - i = Suc (j - Suc i)" by auto
    then show "(prev ! j \<noteq> (row # rows) ! (j - i)) = (prev ! j \<noteq> rows ! (j - Suc i))"
      by simp
  qed
  ultimately show ?case using Cons.prems Cons.IH [of "Suc i"] by simp
qed

text \<open>
  Claim C8. With no previous frame every row is redrawn. With a previous frame of the
  same height as the current one, a row index is redrawn if and only if the previous row
  and the current row differ; in particular nothing is redrawn when the frame is
  unchanged.
\<close>

theorem C8_rows_redrawn:
  "redraw_rows None cur = Inr [0..<length cur]
   \<and> (length prev = length cur \<longrightarrow>
        redraw_rows (Some prev) cur = Inr (filter (\<lambda>i. prev ! i \<noteq> cur ! i) [0..<length cur]))
   \<and> redraw_rows (Some cur) cur = Inr []"
proof -
  have a: "redraw_rows (Some p) cur = Inr (filter (\<lambda>i. p ! i \<noteq> cur ! i) [0..<length cur])"
    if "length p = length cur" for p
  proof (cases "p = []")
    case True
    with that show ?thesis by (simp add: redraw_rows_def)
  next
    case False
    with that changed_rows_eq [of 0 cur p] show ?thesis by (simp add: redraw_rows_def)
  qed
  show ?thesis using a [of prev] a [of cur] by (simp add: redraw_rows_def)
qed

theorem C8_witness:
  "redraw_rows None [''ab'', ''ce''] = Inr [0, 1]
   \<and> length [''ab'', ''cd''] = length [''ab'', ''ce'']
   \<and> redraw_rows (Some [''ab'', ''cd'']) [''ab'', ''ce''] = Inr [1]
   \<and> redraw_rows (Some [''ab'', ''ce'']) [''ab'', ''ce''] = Inr []"
  using C8_rows_redrawn [of "[''ab'', ''ce'']" "[''ab'', ''cd'']"]
  by (simp add: upt_rec)

end
